theory Spec2Isabelle
  imports Complex_Main
begin

section \<open>Python strings\<close>

text \<open>
  A Python \<open>str\<close> is a sequence of Unicode code points; it is modelled as the list of
  its code points, so that \<open>len\<close> is \<open>length\<close> and indexing is \<open>!\<close>.  ASCII literals of
  the source are written \<open>lit ''...''\<close>.  The section sign U+00A7 that introduces a
  formatting code is the code point 167.
\<close>

type_synonym pystr = "nat list"

definition lit :: "string \<Rightarrow> pystr" where
  "lit s = map of_char s"

definition SECT :: nat where
  "SECT = 167"

text \<open>\<open>s.startswith(p)\<close>\<close>

definition startswith :: "pystr \<Rightarrow> pystr \<Rightarrow> bool" where
  "startswith s p = (take (length p) s = p)"

text \<open>\<open>s.replace(old, new)\<close> for a one-character \<open>old\<close>, the only use the source makes of it.\<close>

definition str_replace :: "nat \<Rightarrow> pystr \<Rightarrow> pystr \<Rightarrow> pystr" where
  "str_replace old new s = concat (map (\<lambda>c. if c = old then new else [c]) s)"

text \<open>\<open>sep.join(xs)\<close>\<close>

fun join :: "pystr \<Rightarrow> pystr list \<Rightarrow> pystr" where
  "join sep [] = []"
| "join sep [x] = x"
| "join sep (x # y # ys) = x @ sep @ join sep (y # ys)"

text \<open>
  \<open>c.lower()\<close> for a one-character string.  The result is only ever compared with the
  ASCII keys of the two code tables, so the model is exact on the code points whose
  lower-case form contains an ASCII character (\<open>A\<close>-\<open>Z\<close>, the Kelvin sign U+212A and
  the dotted capital I U+0130, whose lower-case form has two code points) and returns
  every other code point unchanged.
\<close>

definition py_lower :: "nat \<Rightarrow> pystr" where
  "py_lower c =
     (if 65 \<le> c \<and> c \<le> 90 then [c + 32]
      else if c = 8490 then [107]
      else if c = 304 then [105, 775]
      else [c])"

section \<open>motd\_parser.py\<close>

definition COLOR_CODES :: "(pystr \<times> pystr) list" where
  "COLOR_CODES =
    [(lit ''0'', lit ''mcformat-black''),
     (lit ''1'', lit ''mcformat-dark-blue''),
     (lit ''2'', lit ''mcformat-dark-green''),
     (lit ''3'', lit ''mcformat-dark-aqua''),
     (lit ''4'', lit ''mcformat-dark-red''),
     (lit ''5'', lit ''mcformat-dark-purple''),
     (lit ''6'', lit ''mcformat-gold''),
     (lit ''7'', lit ''mcformat-gray''),
     (lit ''8'', lit ''mcformat-dark-gray''),
     (lit ''9'', lit ''mcformat-blue''),
     (lit ''a'', lit ''mcformat-green''),
     (lit ''b'', lit ''mcformat-aqua''),
     (lit ''c'', lit ''mcformat-red''),
     (lit ''d'', lit ''mcformat-light-purple''),
     (lit ''e'', lit ''mcformat-yellow''),
     (lit ''f'', lit ''mcformat-white'')]"

definition FORMAT_CODES :: "(pystr \<times> pystr) list" where
  "FORMAT_CODES =
    [(lit ''k'', lit ''mcformat-obfuscated''),
     (lit ''l'', lit ''mcformat-bold''),
     (lit ''m'', lit ''mcformat-strikethrough''),
     (lit ''n'', lit ''mcformat-underline''),
     (lit ''o'', lit ''mcformat-italic''),
     (lit ''r'', lit ''mcformat-reset'')]"

text \<open>\<open>COLOR_CODES.values()\<close>\<close>

definition color_values :: "pystr list" where
  "color_values = map snd COLOR_CODES"

text \<open>
  The escaping at the head of \<open>parse_motd\<close>: four replacements, one after the other, in
  the order of the source.
\<close>

definition escape_entities :: "pystr \<Rightarrow> pystr" where
  "escape_entities s =
     str_replace 34 (lit ''&quot;'')
       (str_replace 62 (lit ''&gt;'')
         (str_replace 60 (lit ''&lt;'')
           (str_replace 38 (lit ''&amp;'') s)))"

text \<open>
  The pattern \<open>(\<section>[0-9a-fk-or])\<close> under \<open>re.IGNORECASE\<close>.  The engine lower-cases the
  character with the simple case mapping before it tests the class, so the class also
  accepts \<open>A\<close>-\<open>F\<close>, \<open>K\<close>-\<open>O\<close>, \<open>R\<close> and the Kelvin sign U+212A (whose lower case is \<open>k\<close>);
  U+0130 lower-cases to \<open>i\<close>, which is outside the class.
\<close>

definition sre_lower :: "nat \<Rightarrow> nat" where
  "sre_lower c =
     (if 65 \<le> c \<and> c \<le> 90 then c + 32
      else if c = 8490 then 107
      else if c = 304 then 105
      else c)"

definition in_code_class :: "nat \<Rightarrow> bool" where
  "in_code_class c =
     (48 \<le> c \<and> c \<le> 57 \<or> 97 \<le> c \<and> c \<le> 102 \<or> 107 \<le> c \<and> c \<le> 111 \<or> c = 114)"

definition code_char :: "nat \<Rightarrow> bool" where
  "code_char c = in_code_class (sre_lower c)"

text \<open>
  \<open>re.split\<close> with one capturing group: the text before the leftmost match, the match,
  and so on over the rest, ending with the text after the last match.  The result
  alternates literal runs (possibly empty) and two-character matches.
\<close>

fun re_split :: "pystr \<Rightarrow> pystr list" where
  "re_split [] = [[]]"
| "re_split [c] = [[c]]"
| "re_split (c # d # rest) =
     (if c = SECT \<and> code_char d then [] # [c, d] # re_split rest
      else (case re_split (d # rest) of
              [] \<Rightarrow> [[c]]
            | p # ps \<Rightarrow> (c # p) # ps))"

record parse_state =
  current_classes :: "pystr list"
  html_parts :: "pystr list"

definition code_span :: "nat \<Rightarrow> pystr" where
  "code_span c = lit ''<span class=\"mcformat-code\">'' @ [SECT, c] @ lit ''</span>''"

text \<open>One iteration of the loop over \<open>parts\<close>.\<close>

definition process_part :: "parse_state \<Rightarrow> pystr \<Rightarrow> parse_state" where
  "process_part st part =
     (if part = [] then st
      else if startswith part [SECT] \<and> length part = 2 then
        (let code = py_lower (part ! 1) in
         if code = lit ''r'' then
           st\<lparr>current_classes := [],
              html_parts := html_parts st @ [code_span 114]\<rparr>
         else
           (case map_of COLOR_CODES code of
              Some cls \<Rightarrow>
                st\<lparr>current_classes :=
                     filter (\<lambda>c. c \<notin> set color_values) (current_classes st) @ [cls],
                   html_parts := html_parts st @ [code_span (part ! 1)]\<rparr>
            | None \<Rightarrow>
                (case map_of FORMAT_CODES code of
                   Some cls \<Rightarrow>
                     st\<lparr>current_classes :=
                          (if cls \<notin> set (current_classes st)
                           then current_classes st @ [cls]
                           else current_classes st),
                        html_parts := html_parts st @ [code_span (part ! 1)]\<rparr>
                 | None \<Rightarrow> st)))
      else if current_classes st \<noteq> [] then
        st\<lparr>html_parts := html_parts st @
             [lit ''<span class=\"''
              @ join (lit '' '') (lit ''mcformat'' # current_classes st)
              @ lit ''\">'' @ part @ lit ''</span>'']\<rparr>
      else
        st\<lparr>html_parts := html_parts st @
             [lit ''<span class=\"mcformat mcformat-reset\">'' @ part @ lit ''</span>'']\<rparr>)"

definition initial_state :: parse_state where
  "initial_state = \<lparr>current_classes = [], html_parts = []\<rparr>"

definition parse_motd :: "pystr \<Rightarrow> pystr" where
  "parse_motd motd_text =
     (if motd_text = [] then []
      else concat (html_parts
             (foldl process_part initial_state (re_split (escape_entities motd_text)))))"


text \<open>
  What one character contributes to the escaped text, and the matches that \<open>re.split\<close>
  captured (the odd positions of its result); both are used to state how escaping and
  tokenizing commute.
\<close>

definition escape_char :: "nat \<Rightarrow> pystr" where
  "escape_char c =
     (if c = 38 then lit ''&amp;''
      else if c = 60 then lit ''&lt;''
      else if c = 62 then lit ''&gt;''
      else if c = 34 then lit ''&quot;''
      else [c])"

fun matches_of :: "pystr list \<Rightarrow> pystr list" where
  "matches_of (p # m # rest) = m # matches_of rest"
| "matches_of _ = []"

text \<open>The literal runs of a split: the even positions of its result.\<close>

fun runs_of :: "pystr list \<Rightarrow> pystr list" where
  "runs_of (p # m # rest) = p # runs_of rest"
| "runs_of ps = ps"


text \<open>
  The class list as the specification words it, for comparison with the list the code
  builds: \<open>mcformat\<close>, then the active colour class, then the active style classes in the
  fixed order bold, strikethrough, underline, italic, obfuscated.
\<close>

definition spec_class_list :: "pystr list \<Rightarrow> pystr list" where
  "spec_class_list active =
     lit ''mcformat'' # filter (\<lambda>c. c \<in> set color_values) active
       @ filter (\<lambda>c. c \<in> set active)
           [lit ''mcformat-bold'', lit ''mcformat-strikethrough'', lit ''mcformat-underline'',
            lit ''mcformat-italic'', lit ''mcformat-obfuscated'']"

section \<open>Python values and exceptions\<close>

text \<open>
  The values a decoded JSON text component or a status description can hold; \<open>PObj\<close> is
  an object with the given data attributes.
\<close>

datatype pyval =
    PNone
  | PBool bool
  | PInt int
  | PStr pystr
  | PList "pyval list"
  | PDict "(pystr \<times> pyval) list"
  | PObj "(pystr \<times> pyval) list"

text \<open>
  The exceptions that occur.  \<open>socket.timeout\<close>, \<open>ConnectionRefusedError\<close>,
  \<open>socket.gaierror\<close> and \<open>socket.herror\<close> are subclasses of \<open>OSError\<close>.
\<close>

datatype exn =
    ValueError pystr
  | SocketTimeout
  | ConnectionRefusedError
  | GaiError
  | HError
  | OSError
  | TypeError
  | AttributeError
  | OtherException

fun is_ValueError :: "exn \<Rightarrow> bool" where
  "is_ValueError (ValueError m) = True"
| "is_ValueError e = False"

fun is_OSError :: "exn \<Rightarrow> bool" where
  "is_OSError SocketTimeout = True"
| "is_OSError ConnectionRefusedError = True"
| "is_OSError GaiError = True"
| "is_OSError HError = True"
| "is_OSError OSError = True"
| "is_OSError e = False"

text \<open>\<open>bool(v)\<close>\<close>

fun truthy :: "pyval \<Rightarrow> bool" where
  "truthy PNone = False"
| "truthy (PBool b) = b"
| "truthy (PInt i) = (i \<noteq> 0)"
| "truthy (PStr s) = (s \<noteq> [])"
| "truthy (PList xs) = (xs \<noteq> [])"
| "truthy (PDict d) = (d \<noteq> [])"
| "truthy (PObj a) = True"

text \<open>\<open>for item in v\<close>: the items, or \<open>TypeError\<close> when \<open>v\<close> is not iterable.\<close>

fun iter_items :: "pyval \<Rightarrow> exn + pyval list" where
  "iter_items (PList xs) = Inr xs"
| "iter_items (PStr s) = Inr (map (\<lambda>c. PStr [c]) s)"
| "iter_items (PDict d) = Inr (map (\<lambda>kv. PStr (fst kv)) d)"
| "iter_items v = Inl TypeError"

text \<open>\<open>str(n)\<close> for an integer.\<close>

fun str_of_nat :: "nat \<Rightarrow> pystr" where
  "str_of_nat n = (if n < 10 then [48 + n] else str_of_nat (n div 10) @ [48 + n mod 10])"

definition str_of_int :: "int \<Rightarrow> pystr" where
  "str_of_int i = (if i < 0 then 45 # str_of_nat (nat (- i)) else str_of_nat (nat i))"

section \<open>motd\_parser.py: the tree-shaped parser\<close>

text \<open>
  \<open>parse_motd\<close> applied to an arbitrary value, as \<open>parse_motd_json\<close> does with the
  \<open>text\<close> fields: a falsy value returns the empty string at the first test, a string is
  parsed, and any other value has no \<open>replace\<close> method.
\<close>

definition parse_motd_any :: "pyval \<Rightarrow> exn + pystr" where
  "parse_motd_any v =
     (if \<not> truthy v then Inr []
      else (case v of PStr s \<Rightarrow> Inr (parse_motd s) | _ \<Rightarrow> Inl AttributeError))"

text \<open>One entry of the \<open>extra\<close> list: what it appends to \<open>result\<close>.\<close>

definition extra_item :: "pyval \<Rightarrow> exn + pystr list" where
  "extra_item item =
     (case item of
        PDict d \<Rightarrow>
          (let item_text = (case map_of d (lit ''text'') of None \<Rightarrow> PStr [] | Some t \<Rightarrow> t) in
           if truthy item_text then
             (case parse_motd_any item_text of Inl e \<Rightarrow> Inl e | Inr h \<Rightarrow> Inr [h])
           else Inr [])
      | PStr s \<Rightarrow> Inr [parse_motd s]
      | _ \<Rightarrow> Inr [])"

fun extra_loop :: "pyval list \<Rightarrow> exn + pystr list" where
  "extra_loop [] = Inr []"
| "extra_loop (item # items) =
     (case extra_item item of
        Inl e \<Rightarrow> Inl e
      | Inr hs \<Rightarrow> (case extra_loop items of Inl e \<Rightarrow> Inl e | Inr rest \<Rightarrow> Inr (hs @ rest)))"

definition parse_motd_json :: "pyval \<Rightarrow> exn + pystr" where
  "parse_motd_json motd_data =
     (case motd_data of
        PStr s \<Rightarrow> Inr (parse_motd s)
      | PDict d \<Rightarrow>
          (case (case map_of d (lit ''text'') of
                   None \<Rightarrow> Inr []
                 | Some text \<Rightarrow>
                     if truthy text then
                       (case parse_motd_any text of Inl e \<Rightarrow> Inl e | Inr h \<Rightarrow> Inr [h])
                     else Inr []) of
             Inl e \<Rightarrow> Inl e
           | Inr result \<Rightarrow>
               (case map_of d (lit ''extra'') of
                  None \<Rightarrow> Inr (concat result)
                | Some extra \<Rightarrow>
                    (case iter_items extra of
                       Inl e \<Rightarrow> Inl e
                     | Inr items \<Rightarrow>
                         (case extra_loop items of
                            Inl e \<Rightarrow> Inl e
                          | Inr appended \<Rightarrow> Inr (concat (result @ appended))))))
      | _ \<Rightarrow> Inr [])"


section \<open>server.py\<close>

text \<open>
  What the code observes of the outside world is collected in an environment:
  \<open>ipaddress.ip_address\<close> with the five properties the code reads, \<open>socket.gethostbyname\<close>,
  the status query \<open>JavaServer(host, port).status()\<close> of the network client, and the
  built-ins \<open>int(s)\<close> (\<open>None\<close> is its \<open>ValueError\<close>) and \<open>str(v)\<close> on a value that is not
  a string.  Each library call returns its value or the exception it raises.
\<close>

record ip_flags =
  is_private :: bool
  is_loopback :: bool
  is_link_local :: bool
  is_reserved :: bool
  is_multicast :: bool

record status_response =
  description :: pyval
  version_name :: "pystr option"
  players :: "(int \<times> int) option"
  icon :: "pystr option"

record env =
  ip_address :: "pystr \<Rightarrow> exn + ip_flags"
  gethostbyname :: "pystr \<Rightarrow> exn + pystr"
  server_status :: "pystr \<Rightarrow> int \<Rightarrow> exn + status_response"
  py_int :: "pystr \<Rightarrow> int option"
  py_repr :: "pyval \<Rightarrow> pystr"

text \<open>The effects a lookup has, in the order in which they happen.\<close>

datatype event =
    DnsLookup pystr
  | StatusQuery pystr int
  | CacheGet pystr
  | FetchCall pystr
  | CacheSet pystr

definition flagged :: "ip_flags \<Rightarrow> bool" where
  "flagged ip =
     (is_private ip \<or> is_loopback ip \<or> is_link_local ip \<or> is_reserved ip \<or> is_multicast ip)"

definition is_private_ip :: "env \<Rightarrow> pystr \<Rightarrow> (exn + bool) \<times> event list" where
  "is_private_ip E hostname =
     (case ip_address E hostname of
        Inr ip \<Rightarrow> (Inr (flagged ip), [])
      | Inl e \<Rightarrow>
          if is_ValueError e then
            (case gethostbyname E hostname of
               Inl e' \<Rightarrow>
                 if e' = GaiError \<or> e' = HError
                 then (Inl (ValueError (lit ''Cannot resolve hostname: '' @ hostname)),
                       [DnsLookup hostname])
                 else (Inl e', [DnsLookup hostname])
             | Inr resolved_ip \<Rightarrow>
                 (case ip_address E resolved_ip of
                    Inl e' \<Rightarrow> (Inl e', [DnsLookup hostname])
                  | Inr ip \<Rightarrow> (Inr (flagged ip), [DnsLookup hostname])))
          else (Inl e, []))"

definition blocked_ports :: "int list" where
  "blocked_ports = [20, 21, 22, 23, 25, 80, 443, 110, 143, 3306, 5432, 6379, 27017]"

definition validate_server_address :: "env \<Rightarrow> pystr \<Rightarrow> int \<Rightarrow> (exn + unit) \<times> event list" where
  "validate_server_address E hostname port =
     (if \<not> (1 \<le> port \<and> port \<le> 65535) then
        (Inl (ValueError (lit ''Port must be between 1 and 65535, got '' @ str_of_int port)), [])
      else if port \<in> set blocked_ports then
        (Inl (ValueError (lit ''Port '' @ str_of_int port
                @ lit '' is not allowed for security reasons'')), [])
      else
        (case is_private_ip E hostname of
           (Inl e, tr) \<Rightarrow> (Inl e, tr)
         | (Inr private, tr) \<Rightarrow>
             if private then
               (Inl (ValueError (lit ''Access to private/internal IP addresses is not allowed'')),
                tr)
             else (Inr (), tr)))"

text \<open>\<open>s.rsplit(sep, 1)\<close> for a string that contains \<open>sep\<close>: the split at its last occurrence.\<close>

definition rsplit1 :: "nat \<Rightarrow> pystr \<Rightarrow> pystr \<times> pystr" where
  "rsplit1 sep s =
     (let suffix = rev (takeWhile (\<lambda>c. c \<noteq> sep) (rev s))
      in (take (length s - length suffix - 1) s, suffix))"

definition parse_server_address :: "env \<Rightarrow> pystr \<Rightarrow> (exn + pystr \<times> int) \<times> event list" where
  "parse_server_address E ip =
     (if 58 \<in> set ip then
        (let (host, port_str) = rsplit1 58 ip in
         case py_int E port_str of
           None \<Rightarrow> (Inl (ValueError (lit ''Invalid port: '' @ port_str)), [])
         | Some port \<Rightarrow>
             (case validate_server_address E host port of
                (Inl e, tr) \<Rightarrow> (Inl e, tr)
              | (Inr u, tr) \<Rightarrow> (Inr (host, port), tr)))
      else
        (case validate_server_address E ip 25565 of
           (Inl e, tr) \<Rightarrow> (Inl e, tr)
         | (Inr u, tr) \<Rightarrow> (Inr (ip, 25565), tr)))"

text \<open>
  The \<open>except\<close> clause of \<open>fetch_server_status\<close>:
  \<open>(socket.timeout, ConnectionRefusedError, OSError, ValueError)\<close>.
\<close>

definition caught :: "exn \<Rightarrow> bool" where
  "caught e = (e = SocketTimeout \<or> e = ConnectionRefusedError \<or> is_OSError e \<or> is_ValueError e)"

definition fetch_server_status ::
  "env \<Rightarrow> pystr \<Rightarrow> (exn + status_response option) \<times> event list" where
  "fetch_server_status E ip =
     (case parse_server_address E ip of
        (Inl e, tr) \<Rightarrow> if caught e then (Inr None, tr) else (Inl e, tr)
      | (Inr (host, port), tr) \<Rightarrow>
          (case server_status E host port of
             Inl e \<Rightarrow>
               if caught e then (Inr None, tr @ [StatusQuery host port])
               else (Inl e, tr @ [StatusQuery host port])
           | Inr status \<Rightarrow> (Inr (Some status), tr @ [StatusQuery host port])))"

text \<open>The dictionary \<open>get_server_info\<close> returns.\<close>

record server_info =
  online :: bool
  motd :: pystr
  server_name :: pystr
  players_online :: int
  players_max :: int
  version :: pystr
  favicon :: "pystr option"

text \<open>\<open>str(v)\<close>\<close>

definition to_str :: "env \<Rightarrow> pyval \<Rightarrow> pystr" where
  "to_str E v = (case v of PStr s \<Rightarrow> s | _ \<Rightarrow> py_repr E v)"

text \<open>
  The generator \<open>str(item.get('text', '')) if isinstance(item, dict) else str(item)\<close>,
  joined with the empty string.
\<close>

definition extra_text_of :: "env \<Rightarrow> pyval list \<Rightarrow> pystr" where
  "extra_text_of E items =
     concat (map (\<lambda>item.
        case item of
          PDict d \<Rightarrow> to_str E (case map_of d (lit ''text'') of None \<Rightarrow> PStr [] | Some t \<Rightarrow> t)
        | _ \<Rightarrow> to_str E item) items)"

text \<open>The text \<open>get_server_info\<close> extracts from \<open>status.description\<close>, before the fallbacks.\<close>

definition description_text :: "env \<Rightarrow> pyval \<Rightarrow> exn + pystr" where
  "description_text E d =
     (case d of
        PStr s \<Rightarrow> Inr s
      | PObj attrs \<Rightarrow>
          (case map_of attrs (lit ''text'') of
             None \<Rightarrow> Inr []
           | Some text \<Rightarrow>
               (let motd_text = (if truthy text then to_str E text else []) in
                case map_of attrs (lit ''extra'') of
                  None \<Rightarrow> Inr motd_text
                | Some extra \<Rightarrow>
                    if truthy extra then
                      (case iter_items extra of
                         Inl e \<Rightarrow> Inl e
                       | Inr items \<Rightarrow> Inr (motd_text @ extra_text_of E items))
                    else Inr motd_text))
      | PDict dict \<Rightarrow>
          (let motd_text = (case map_of dict (lit ''text'') of
                              None \<Rightarrow> []
                            | Some text \<Rightarrow> to_str E text) in
           case map_of dict (lit ''extra'') of
             None \<Rightarrow> Inr motd_text
           | Some extra \<Rightarrow>
               (case iter_items extra of
                  Inl e \<Rightarrow> Inl e
                | Inr items \<Rightarrow> Inr (motd_text @ extra_text_of E items)))
      | _ \<Rightarrow> Inr [])"

definition offline_info :: "pystr \<Rightarrow> server_info" where
  "offline_info ip =
     \<lparr>online = False,
      motd = lit ''Server Offline'',
      server_name = ip,
      players_online = 0,
      players_max = 0,
      version = lit ''Unknown'',
      favicon = None\<rparr>"

definition get_server_info :: "env \<Rightarrow> pystr \<Rightarrow> (exn + server_info) \<times> event list" where
  "get_server_info E ip =
     (case fetch_server_status E ip of
        (Inl e, tr) \<Rightarrow> (Inl e, tr)
      | (Inr None, tr) \<Rightarrow> (Inr (offline_info ip), tr)
      | (Inr (Some status), tr) \<Rightarrow>
          (case description_text E (description status) of
             Inl e \<Rightarrow> (Inl e, tr)
           | Inr text \<Rightarrow>
               (let motd_text =
                      (if text = [] then
                         (if truthy (description status) then to_str E (description status)
                          else lit ''No MOTD'')
                       else text)
                in (Inr \<lparr>online = True,
                        motd = (if motd_text = [] then lit ''No MOTD'' else motd_text),
                        server_name = (case version_name status of None \<Rightarrow> ip | Some n \<Rightarrow> n),
                        players_online = (case players status of None \<Rightarrow> 0 | Some p \<Rightarrow> fst p),
                        players_max = (case players status of None \<Rightarrow> 0 | Some p \<Rightarrow> snd p),
                        version = (case version_name status of
                                     None \<Rightarrow> lit ''Unknown'' | Some n \<Rightarrow> n),
                        favicon = icon status\<rparr>, tr))))"

section \<open>cache.py\<close>

text \<open>
  \<open>ThreadSafeTTLCache\<close> keeps its entries in a \<open>cachetools.TTLCache\<close>, a library class
  whose source is not part of this repository.  The store and its four operations are
  therefore modelled from the specification's section on the expiring cache.  Time is a
  real number of seconds, and the clock reading is a parameter of every operation.
\<close>

text \<open>
  Modelled from the spec: the \<open>CacheEntry\<close> of the data model, a key, a value and the
  time at which the entry expires.
\<close>

record 'v cache_entry =
  ckey :: pystr
  cvalue :: 'v
  expires :: real

text \<open>
  Modelled from the spec: the bounded store, with its configured capacity and
  time-to-live.  The entries are kept in the order of their last use, the least
  recently used entry first.
\<close>

record 'v ttl_cache =
  maxsize :: nat
  ttl :: real
  entries :: "'v cache_entry list"

text \<open>Modelled from the spec: the constructor \<open>TTLCache(maxsize, ttl)\<close>, an empty store.\<close>

definition TTLCache :: "nat \<Rightarrow> real \<Rightarrow> 'v ttl_cache" where
  "TTLCache m t = \<lparr>maxsize = m, ttl = t, entries = []\<rparr>"

text \<open>
  Modelled from the spec: the entries that have not expired at time \<open>now\<close>; the others
  are treated as absent.
\<close>

definition live :: "real \<Rightarrow> 'v cache_entry list \<Rightarrow> 'v cache_entry list" where
  "live now es = filter (\<lambda>e. now < expires e) es"

text \<open>
  Modelled from the spec: \<open>get\<close> of the store.  It returns the value of the key when the
  entry has not expired and nothing otherwise, and a successful lookup makes the entry
  the most recently used one.
\<close>

definition ttl_get :: "real \<Rightarrow> 'v ttl_cache \<Rightarrow> pystr \<Rightarrow> 'v option \<times> 'v ttl_cache" where
  "ttl_get now c k =
     (case find (\<lambda>e. ckey e = k) (entries c) of
        None \<Rightarrow> (None, c)
      | Some e \<Rightarrow>
          if now < expires e then
            (Some (cvalue e), c\<lparr>entries := filter (\<lambda>x. ckey x \<noteq> k) (entries c) @ [e]\<rparr>)
          else (None, c))"

text \<open>
  Modelled from the spec: \<open>set\<close> of the store.  Expired entries are purged; a key that is
  present is refreshed; for a new key, when the insertion would exceed the capacity, the
  least recently used entries are evicted first, whatever time they have left; the
  entry becomes the most recently used one and expires \<open>ttl\<close> after \<open>now\<close>.
\<close>

definition ttl_setitem :: "real \<Rightarrow> 'v ttl_cache \<Rightarrow> pystr \<Rightarrow> 'v \<Rightarrow> 'v ttl_cache" where
  "ttl_setitem now c k v =
     (let es = live now (entries c);
          room = (if k \<in> set (map ckey es) then es
                  else drop (Suc (length es) - maxsize c) es)
      in c\<lparr>entries := filter (\<lambda>x. ckey x \<noteq> k) room
                        @ [\<lparr>ckey = k, cvalue = v, expires = now + ttl c\<rparr>]\<rparr>)"

text \<open>Modelled from the spec: \<open>clear\<close> of the store.\<close>

definition ttl_clear :: "'v ttl_cache \<Rightarrow> 'v ttl_cache" where
  "ttl_clear c = c\<lparr>entries := []\<rparr>"

text \<open>Modelled from the spec: \<open>size\<close> of the store, the number of entries that have not expired.\<close>

definition ttl_len :: "real \<Rightarrow> 'v ttl_cache \<Rightarrow> nat" where
  "ttl_len now c = length (live now (entries c))"

text \<open>
  \<open>ThreadSafeTTLCache\<close>: each method takes the lock and delegates to the store.  In this
  sequential model the lock has no effect.
\<close>

definition cache_get :: "real \<Rightarrow> 'v ttl_cache \<Rightarrow> pystr \<Rightarrow> 'v option \<times> 'v ttl_cache" where
  "cache_get now c key = ttl_get now c key"

definition cache_set :: "real \<Rightarrow> 'v ttl_cache \<Rightarrow> pystr \<Rightarrow> 'v \<Rightarrow> 'v ttl_cache" where
  "cache_set now c key v = ttl_setitem now c key v"

definition cache_clear :: "'v ttl_cache \<Rightarrow> 'v ttl_cache" where
  "cache_clear c = ttl_clear c"

definition cache_size :: "real \<Rightarrow> 'v ttl_cache \<Rightarrow> nat" where
  "cache_size now c = ttl_len now c"

text \<open>The global instance: at most 1000 servers, 30 seconds to live.\<close>

definition server_cache :: "'v ttl_cache" where
  "server_cache = TTLCache 1000 30"

text \<open>
  \<open>get_cached_server_info\<close>; the lookup happens at time \<open>t_get\<close> and the store, after
  the fetch, at time \<open>t_set\<close>.
\<close>

definition get_cached_server_info ::
  "real \<Rightarrow> real \<Rightarrow> 'v ttl_cache \<Rightarrow> pystr \<Rightarrow> (pystr \<Rightarrow> (exn + 'v) \<times> event list)
     \<Rightarrow> (exn + 'v) \<times> 'v ttl_cache \<times> event list" where
  "get_cached_server_info t_get t_set c ip fetch_func =
     (case cache_get t_get c ip of
        (Some cached, c1) \<Rightarrow> (Inr cached, c1, [CacheGet ip])
      | (None, c1) \<Rightarrow>
          (case fetch_func ip of
             (Inl e, tr) \<Rightarrow> (Inl e, c1, [CacheGet ip, FetchCall ip] @ tr)
           | (Inr info, tr) \<Rightarrow>
               (Inr info, cache_set t_set c1 ip info,
                [CacheGet ip, FetchCall ip] @ tr @ [CacheSet ip])))"

text \<open>The operations on the cache, for runs of the cache from its initial state.\<close>

datatype 'v cache_op =
    OpGet real pystr
  | OpSet real pystr 'v
  | OpClear

fun cache_step :: "'v ttl_cache \<Rightarrow> 'v cache_op \<Rightarrow> 'v ttl_cache" where
  "cache_step c (OpGet now k) = snd (cache_get now c k)"
| "cache_step c (OpSet now k v) = cache_set now c k v"
| "cache_step c OpClear = cache_clear c"


text \<open>
  The invariant of the global cache: its parameters are the configured ones and it holds
  at most 1000 entries, expired ones included.
\<close>

definition cache_inv :: "'v ttl_cache \<Rightarrow> bool" where
  "cache_inv c = (maxsize c = 1000 \<and> ttl c = 30 \<and> length (entries c) \<le> 1000)"

text \<open>Every entry of a run was stored by a set of the run, and expires 30 seconds after it.\<close>

definition stored_by :: "'v cache_op list \<Rightarrow> 'v cache_entry \<Rightarrow> bool" where
  "stored_by ops e = (\<exists>t. OpSet t (ckey e) (cvalue e) \<in> set ops \<and> expires e = t + 30)"

section \<open>An example environment\<close>

text \<open>
  A small world for the concrete instances below: \<open>example.com\<close> resolves to a public
  address, \<open>127.0.0.1\<close> is a loopback address, no other name resolves, every status
  query is refused, and \<open>int\<close> reads plain decimal digits.
\<close>

definition ascii_decimal :: "pystr \<Rightarrow> int option" where
  "ascii_decimal s =
     (if s \<noteq> [] \<and> list_all (\<lambda>c. 48 \<le> c \<and> c \<le> 57) s
      then Some (foldl (\<lambda>a c. 10 * a + int (c - 48)) 0 s)
      else None)"

definition example_env :: env where
  "example_env =
     \<lparr>ip_address = (\<lambda>h.
        if h = lit ''93.184.216.34'' then
          Inr \<lparr>is_private = False, is_loopback = False, is_link_local = False,
               is_reserved = False, is_multicast = False\<rparr>
        else if h = lit ''127.0.0.1'' then
          Inr \<lparr>is_private = True, is_loopback = True, is_link_local = False,
               is_reserved = False, is_multicast = False\<rparr>
        else Inl (ValueError (lit ''not an IPv4 or IPv6 address''))),
      gethostbyname = (\<lambda>h.
        if h = lit ''example.com'' then Inr (lit ''93.184.216.34'') else Inl GaiError),
      server_status = (\<lambda>h p. Inl ConnectionRefusedError),
      py_int = ascii_decimal,
      py_repr = (\<lambda>v. lit ''?'')\<rparr>"

section \<open>Properties of the format-code parser\<close>

text \<open>The equations that evaluate the parser on a concrete text.\<close>

lemmas parser_eval =
  parse_motd_def escape_entities_def str_replace_def lit_def SECT_def code_char_def
  sre_lower_def in_code_class_def initial_state_def process_part_def startswith_def
  py_lower_def COLOR_CODES_def FORMAT_CODES_def color_values_def code_span_def

subsection \<open>The code tables\<close>




lemma color_keys_no_reset: "map_of COLOR_CODES (lit ''r'') = None"
  by (simp add: COLOR_CODES_def lit_def)

lemma format_keys_disj: "set (map fst FORMAT_CODES) \<inter> set (map fst COLOR_CODES) = {}"
  by (simp add: FORMAT_CODES_def COLOR_CODES_def lit_def)

lemma format_key_not_color:
  assumes "map_of FORMAT_CODES code = Some cls"
  shows "map_of COLOR_CODES code = None"
proof -
  from assms have "code \<in> set (map fst FORMAT_CODES)"
    by (metis map_of_SomeD set_zip_leftD zip_map_fst_snd)
  with format_keys_disj have "code \<notin> set (map fst COLOR_CODES)" by blast
  then show ?thesis by (simp add: map_of_eq_None_iff)
qed


lemma process_part_color:
  assumes "map_of COLOR_CODES (py_lower d) = Some cls"
  shows "process_part st [SECT, d] =
     st\<lparr>current_classes := filter (\<lambda>c. c \<notin> set color_values) (current_classes st) @ [cls],
        html_parts := html_parts st @ [code_span d]\<rparr>"
proof -
  from assms color_keys_no_reset have "py_lower d \<noteq> lit ''r''" by auto
  with assms show ?thesis by (simp add: process_part_def startswith_def)
qed

lemma process_part_style:
  assumes "map_of FORMAT_CODES (py_lower d) = Some cls" and "py_lower d \<noteq> lit ''r''"
  shows "process_part st [SECT, d] =
     st\<lparr>current_classes :=
          (if cls \<notin> set (current_classes st) then current_classes st @ [cls]
           else current_classes st),
        html_parts := html_parts st @ [code_span d]\<rparr>"
  using assms format_key_not_color [OF assms(1)]
  by (simp add: process_part_def startswith_def)

lemma process_part_text:
  assumes "part \<noteq> []" and "\<not> (startswith part [SECT] \<and> length part = 2)"
  shows "process_part st part =
     st\<lparr>html_parts := html_parts st @
        [if current_classes st \<noteq> [] then
           lit ''<span class=\"'' @ join (lit '' '') (lit ''mcformat'' # current_classes st)
             @ lit ''\">'' @ part @ lit ''</span>''
         else lit ''<span class=\"mcformat mcformat-reset\">'' @ part @ lit ''</span>'']\<rparr>"
  using assms by (auto simp: process_part_def)





subsection \<open>Escaping and tokenizing\<close>

lemma str_replace_Nil: "str_replace old new [] = []"
  by (simp add: str_replace_def)

lemma str_replace_Cons:
  "str_replace old new (c # s) = (if c = old then new else [c]) @ str_replace old new s"
  by (simp add: str_replace_def)

lemma str_replace_append:
  "str_replace old new (a @ b) = str_replace old new a @ str_replace old new b"
  by (simp add: str_replace_def)

lemma escape_entities_Cons:
  "escape_entities (c # s) = escape_char c @ escape_entities s"
  by (simp add: escape_entities_def escape_char_def str_replace_Cons str_replace_append)
     (simp add: lit_def str_replace_def)

lemma escape_entities_concat: "escape_entities s = concat (map escape_char s)"
proof (induction s)
  case Nil
  show ?case by (simp add: escape_entities_def str_replace_def)
next
  case (Cons c s)
  then show ?case by (simp add: escape_entities_Cons)
qed

lemma escape_entities_append:
  "escape_entities (a @ b) = escape_entities a @ escape_entities b"
  by (simp add: escape_entities_concat)

lemma code_char_not_reserved:
  "code_char d \<Longrightarrow> d \<noteq> 38 \<and> d \<noteq> 60 \<and> d \<noteq> 62 \<and> d \<noteq> 34"
  by (auto simp: code_char_def in_code_class_def sre_lower_def split: if_splits)

lemma escape_char_code: "code_char d \<Longrightarrow> escape_char d = [d]"
  using code_char_not_reserved [of d] by (simp add: escape_char_def)

lemma escape_char_SECT: "escape_char SECT = [SECT]"
  by (simp add: escape_char_def SECT_def)

lemma escape_char_no_SECT: "c \<noteq> SECT \<Longrightarrow> SECT \<notin> set (escape_char c)"
  by (simp add: escape_char_def SECT_def lit_def)

lemma escape_char_hd:
  "\<not> code_char d \<Longrightarrow> escape_char d \<noteq> [] \<and> \<not> code_char (hd (escape_char d))"
proof -
  have "\<not> code_char 38" by (simp add: code_char_def in_code_class_def sre_lower_def)
  then show "\<not> code_char d \<Longrightarrow> ?thesis"
    by (simp add: escape_char_def lit_def)
qed

lemma re_split_not_Nil: "re_split s \<noteq> []"
  by (induction s rule: re_split.induct) (auto split: list.splits)

lemma re_split_Cons_literal:
  assumes "c \<noteq> SECT \<or> s = [] \<or> \<not> code_char (hd s)"
  shows "re_split (c # s) = (c # hd (re_split s)) # tl (re_split s)"
proof (cases s)
  case Nil
  then show ?thesis by simp
next
  case (Cons d rest)
  with assms have "\<not> (c = SECT \<and> code_char d)" by auto
  with Cons re_split_not_Nil [of "d # rest"] show ?thesis
    by (auto split: list.splits)
qed

lemma re_split_literal_prefix:
  "SECT \<notin> set u \<Longrightarrow> re_split (u @ s) = (u @ hd (re_split s)) # tl (re_split s)"
proof (induction u)
  case Nil
  then show ?case using re_split_not_Nil [of s] by simp
next
  case (Cons x u)
  then have "re_split (x # (u @ s)) = (x # hd (re_split (u @ s))) # tl (re_split (u @ s))"
    by (intro re_split_Cons_literal) auto
  with Cons show ?case by simp
qed

lemma re_split_escape:
  "re_split (escape_entities s) = map escape_entities (re_split s)"
proof (induction s rule: re_split.induct)
  case 1
  show ?case by (simp add: escape_entities_concat)
next
  case (2 c)
  show ?case
  proof (cases "c = SECT")
    case True
    then show ?thesis by (simp add: escape_entities_concat escape_char_SECT)
  next
    case False
    then have "SECT \<notin> set (escape_char c)" by (rule escape_char_no_SECT)
    from re_split_literal_prefix [OF this, of "[]"] show ?thesis
      by (simp add: escape_entities_concat)
  qed
next
  case (3 c d rest)
  show ?case
  proof (cases "c = SECT \<and> code_char d")
    case True
    with 3 show ?thesis
      by (simp add: escape_entities_Cons escape_char_SECT escape_char_code)
         (simp add: escape_entities_concat)
  next
    case False
    let ?R = "re_split (d # rest)"
    have R: "?R \<noteq> []" by (rule re_split_not_Nil)
    from False 3 have IH: "re_split (escape_entities (d # rest)) = map escape_entities ?R"
      by simp
    from False R have lhs: "re_split (c # d # rest) = (c # hd ?R) # tl ?R"
      by (auto split: list.splits)
    have "re_split (escape_char c @ escape_entities (d # rest))
        = (escape_char c @ hd (map escape_entities ?R)) # tl (map escape_entities ?R)"
    proof (cases "c = SECT")
      case True
      with False have "\<not> code_char d" by simp
      from escape_char_hd [OF this]
      have "escape_entities (d # rest) \<noteq> [] \<and> \<not> code_char (hd (escape_entities (d # rest)))"
        by (simp add: escape_entities_Cons)
      then have "re_split (SECT # escape_entities (d # rest))
          = (SECT # hd (re_split (escape_entities (d # rest))))
            # tl (re_split (escape_entities (d # rest)))"
        by (intro re_split_Cons_literal) simp
      with True IH show ?thesis by (simp add: escape_char_SECT)
    next
      case False
      then have "SECT \<notin> set (escape_char c)" by (rule escape_char_no_SECT)
      from re_split_literal_prefix [OF this, of "escape_entities (d # rest)"] IH
      show ?thesis by simp
    qed
    with lhs R show ?thesis
      by (simp add: escape_entities_Cons [of c] hd_map map_tl)
  qed
qed

lemma matches_of_map: "matches_of (map f ps) = map f (matches_of ps)"
  by (induction ps rule: matches_of.induct) simp_all

lemma runs_of_map: "runs_of (map f ps) = map f (runs_of ps)"
  by (induction ps rule: runs_of.induct) simp_all

lemma matches_of_hd: "matches_of ((c # hd ps) # tl ps) = matches_of ps"
  by (cases ps rule: matches_of.cases) simp_all

lemma matches_of_re_split:
  "m \<in> set (matches_of (re_split s)) \<Longrightarrow> \<exists>d. m = [SECT, d] \<and> code_char d"
proof (induction s rule: re_split.induct)
  case 1
  then show ?case by simp
next
  case (2 c)
  then show ?case by simp
next
  case (3 c d rest)
  show ?case
  proof (cases "c = SECT \<and> code_char d")
    case True
    with 3 show ?thesis by auto
  next
    case False
    then have eq: "re_split (c # d # rest) = (c # hd (re_split (d # rest))) # tl (re_split (d # rest))"
      by (intro re_split_Cons_literal) auto
    from "3.prems" have "m \<in> set (matches_of (re_split (d # rest)))"
      unfolding eq matches_of_hd .
    with "3.IH"(2) [OF False] show ?thesis .
  qed
qed

lemma escape_entities_match:
  "m \<in> set (matches_of (re_split s)) \<Longrightarrow> escape_entities m = m"
  by (auto dest!: matches_of_re_split
        simp: escape_entities_Cons escape_char_SECT escape_char_code escape_entities_concat)

subsection \<open>Claims about the format-code parser\<close>

text \<open>
  C5, as the code behaves.  The claim says that a two-character sequence of the section
  sign and a character that is no format code is kept as literal text.  The pattern does
  not match such a pair, so it stays inside a literal run; but the loop tests every part,
  matched or not, for "starts with the section sign and has length 2", and a literal run
  that consists of exactly such a pair takes the marker branch, where no case applies and
  nothing is emitted.  The pair \<open>\<section>z\<close> alone is dropped from the output, while the same
  pair after another character is wrapped as literal text.
\<close>

theorem unknown_pair_is_dropped:
  "\<not> code_char 122
   \<and> parse_motd [SECT, 122] = []
   \<and> parse_motd (lit ''a'' @ [SECT, 122]) =
       lit ''<span class=\"mcformat mcformat-reset\">a'' @ [SECT, 122] @ lit ''</span>''"
  by (simp add: parser_eval)

text \<open>
  C6, counterexample.  The claim says the class list is \<open>mcformat\<close>, the colour class, then
  the style classes in the fixed order bold, strikethrough, underline, italic, obfuscated.
  After the markers \<open>\<section>l\<section>4\<close> the code lists the bold class before the dark-red class:
  the list is in the order in which the classes became active.
\<close>

theorem class_order_counterexample:
  "current_classes (foldl process_part initial_state
       (re_split (escape_entities (SECT # lit ''l'' @ SECT # lit ''4Red''))))
     = [lit ''mcformat-bold'', lit ''mcformat-dark-red'']
   \<and> parse_motd (SECT # lit ''l'' @ SECT # lit ''4Red'') =
       code_span 108 @ code_span 52
       @ lit ''<span class=\"mcformat mcformat-bold mcformat-dark-red\">Red</span>''
   \<and> join (lit '' '') (spec_class_list [lit ''mcformat-bold'', lit ''mcformat-dark-red''])
       = lit ''mcformat mcformat-dark-red mcformat-bold''
   \<and> parse_motd (SECT # lit ''l'' @ SECT # lit ''4Red'') \<noteq>
       code_span 108 @ code_span 52
       @ lit ''<span class=\"''
       @ join (lit '' '') (spec_class_list [lit ''mcformat-bold'', lit ''mcformat-dark-red''])
       @ lit ''\">Red</span>''"
  by (simp add: parser_eval spec_class_list_def)

text \<open>
  C6, amended.  Every non-empty literal run, other than a run that consists of exactly
  the section sign and one further character, is wrapped in a span whose class list is
  \<open>mcformat\<close> followed by the active classes in the order in which they became active: a
  colour marker removes the colour class that was active and appends the new colour
  class after the classes already listed, and a style marker appends its class when it
  is not listed yet.  When no class is active the run is wrapped with the class list
  \<open>mcformat mcformat-reset\<close>.  Nothing is said here about a run of the excluded shape,
  which takes the marker branch of the loop (see C5), nor about an empty run, which the
  loop skips.
\<close>

theorem literal_run_classes_in_activation_order:
  "(part \<noteq> [] \<and> \<not> (startswith part [SECT] \<and> length part = 2) \<longrightarrow>
      process_part st part =
        st\<lparr>html_parts := html_parts st @
          [if current_classes st \<noteq> [] then
             lit ''<span class=\"'' @ join (lit '' '') (lit ''mcformat'' # current_classes st)
               @ lit ''\">'' @ part @ lit ''</span>''
           else lit ''<span class=\"mcformat mcformat-reset\">'' @ part @ lit ''</span>'']\<rparr>)
   \<and> (map_of COLOR_CODES (py_lower d) = Some cls \<longrightarrow>
        current_classes (process_part st [SECT, d]) =
          filter (\<lambda>c. c \<notin> set color_values) (current_classes st) @ [cls])
   \<and> (map_of FORMAT_CODES (py_lower d') = Some cls' \<and> py_lower d' \<noteq> lit ''r''
          \<and> cls' \<notin> set (current_classes st) \<longrightarrow>
        current_classes (process_part st [SECT, d']) = current_classes st @ [cls'])"
  by (simp add: process_part_text process_part_color process_part_style)

text \<open>An instance of the amended C6: every hypothesis holds, and the results are concrete.\<close>

theorem literal_run_classes_witness:
  "process_part \<lparr>current_classes = [lit ''mcformat-italic'', lit ''mcformat-gold''], html_parts = []\<rparr>
       (lit ''Red'')
     = \<lparr>current_classes = [lit ''mcformat-italic'', lit ''mcformat-gold''],
        html_parts = [lit ''<span class=\"mcformat mcformat-italic mcformat-gold\">Red</span>'']\<rparr>
   \<and> current_classes (process_part
         \<lparr>current_classes = [lit ''mcformat-italic'', lit ''mcformat-gold''], html_parts = []\<rparr>
         [SECT, 52])
     = [lit ''mcformat-italic'', lit ''mcformat-dark-red'']
   \<and> current_classes (process_part
         \<lparr>current_classes = [lit ''mcformat-italic'', lit ''mcformat-gold''], html_parts = []\<rparr>
         [SECT, 108])
     = [lit ''mcformat-italic'', lit ''mcformat-gold'', lit ''mcformat-bold'']"
proof -
  let ?st = "\<lparr>current_classes = [lit ''mcformat-italic'', lit ''mcformat-gold''], html_parts = []\<rparr>"
  have h1: "lit ''Red'' \<noteq> [] \<and> \<not> (startswith (lit ''Red'') [SECT] \<and> length (lit ''Red'') = 2)"
    by (simp add: lit_def)
  have h2: "map_of COLOR_CODES (py_lower 52) = Some (lit ''mcformat-dark-red'')"
    by (simp add: parser_eval)
  have h3: "map_of FORMAT_CODES (py_lower 108) = Some (lit ''mcformat-bold'')
      \<and> py_lower 108 \<noteq> lit ''r'' \<and> lit ''mcformat-bold'' \<notin> set (current_classes ?st)"
    by (simp add: parser_eval)
  have h4: "filter (\<lambda>c. c \<notin> set color_values) (current_classes ?st) = [lit ''mcformat-italic'']"
    by (simp add: parser_eval)
  have h5: "lit ''<span class=\"'' @ join (lit '' '') (lit ''mcformat'' # current_classes ?st)
               @ lit ''\">'' @ lit ''Red'' @ lit ''</span>''
      = lit ''<span class=\"mcformat mcformat-italic mcformat-gold\">Red</span>''"
    by (simp add: lit_def)
  from literal_run_classes_in_activation_order
         [of "lit ''Red''" ?st 52 "lit ''mcformat-dark-red''" 108 "lit ''mcformat-bold''"]
       h1 h2 h3
  show ?thesis unfolding h4 h5 by simp
qed





text \<open>
  C9.  The parser tokenizes the escaped text.  Escaping replaces each of the four
  reserved characters by its entity and leaves every other character alone, and it
  commutes with tokenizing: the split of the escaped text is the split of the raw text
  with every part escaped, the matched markers are the same sequence in both, and the
  literal runs of the escaped text are the escaped literal runs of the raw text.
\<close>

theorem escaping_keeps_tokenization:
  "parse_motd text =
     (if text = [] then []
      else concat (html_parts (foldl process_part initial_state
                     (map escape_entities (re_split text)))))
   \<and> escape_entities text = concat (map escape_char text)
   \<and> re_split (escape_entities text) = map escape_entities (re_split text)
   \<and> matches_of (re_split (escape_entities text)) = matches_of (re_split text)
   \<and> runs_of (re_split (escape_entities text)) = map escape_entities (runs_of (re_split text))"
proof -
  have "matches_of (re_split (escape_entities text)) = map escape_entities (matches_of (re_split text))"
    by (simp add: re_split_escape matches_of_map)
  also have "\<dots> = matches_of (re_split text)"
    by (rule map_idI) (rule escape_entities_match)
  finally have m: "matches_of (re_split (escape_entities text)) = matches_of (re_split text)" .
  show ?thesis
    by (simp add: parse_motd_def re_split_escape m [unfolded re_split_escape]
          runs_of_map escape_entities_concat [symmetric])
qed

section \<open>Properties of the tree-shaped parser\<close>

text \<open>
  C10.  A value that is neither a string nor a dictionary (a number, a list, \<open>None\<close>, ...)
  is parsed to the empty string, and so is a dictionary that has neither a \<open>text\<close> key
  nor an \<open>extra\<close> key; in both cases the result is a value, not an exception.
\<close>

theorem parse_motd_json_other_values:
  "((\<forall>s. v \<noteq> PStr s) \<and> (\<forall>d. v \<noteq> PDict d) \<longrightarrow> parse_motd_json v = Inr [])
   \<and> (map_of d (lit ''text'') = None \<and> map_of d (lit ''extra'') = None \<longrightarrow>
        parse_motd_json (PDict d) = Inr [])"
  by (cases v) (simp_all add: parse_motd_json_def)

text \<open>An instance of C10: the number 5, and a dictionary with a \<open>color\<close> key only.\<close>

theorem parse_motd_json_witness:
  "parse_motd_json (PInt 5) = Inr []
   \<and> map_of [(lit ''color'', PStr (lit ''gold''))] (lit ''text'') = None
   \<and> map_of [(lit ''color'', PStr (lit ''gold''))] (lit ''extra'') = None
   \<and> parse_motd_json (PDict [(lit ''color'', PStr (lit ''gold''))]) = Inr []"
proof -
  have h1: "(\<forall>s. PInt 5 \<noteq> PStr s) \<and> (\<forall>d. PInt 5 \<noteq> PDict d)" by simp
  have h2: "map_of [(lit ''color'', PStr (lit ''gold''))] (lit ''text'') = None
      \<and> map_of [(lit ''color'', PStr (lit ''gold''))] (lit ''extra'') = None"
    by (simp add: lit_def)
  from parse_motd_json_other_values [of "PInt 5" "[(lit ''color'', PStr (lit ''gold''))]"] h1 h2
  show ?thesis by simp
qed

section \<open>Properties of the address resolver and the lookup\<close>

text \<open>The equations that evaluate the resolver and the lookup in the example environment.\<close>

lemmas server_eval =
  parse_server_address_def validate_server_address_def is_private_ip_def rsplit1_def
  blocked_ports_def flagged_def fetch_server_status_def get_server_info_def caught_def
  example_env_def ascii_decimal_def str_of_int_def lit_def

lemmas cache_eval =
  cache_get_def ttl_get_def cache_set_def ttl_setitem_def cache_clear_def ttl_clear_def
  cache_size_def ttl_len_def live_def server_cache_def TTLCache_def lit_def

subsection \<open>Blocked ports\<close>

lemma rsplit1_last:
  "sep \<notin> set suffix \<Longrightarrow> rsplit1 sep (host @ sep # suffix) = (host, suffix)"
proof -
  assume a: "sep \<notin> set suffix"
  have "takeWhile (\<lambda>c. c \<noteq> sep) (rev suffix @ sep # rev host) = rev suffix"
    using a by (auto simp: takeWhile_tail)
  then show ?thesis by (simp add: rsplit1_def)
qed

lemma blocked_ports_in_range: "port \<in> set blocked_ports \<Longrightarrow> 1 \<le> port \<and> port \<le> 65535"
  by (auto simp: blocked_ports_def)

text \<open>
  C2.  The denylist is the set of the thirteen ports of the claim.  For an address
  \<open>host:port\<close> (the port being the text after the last colon) whose port reads as a
  member of the denylist, \<open>parse_server_address\<close> raises the \<open>ValueError\<close> that names the
  port as not allowed, whatever the host is; the empty trace shows that the host was not
  even looked up.
\<close>

theorem blocked_port_is_rejected:
  "set blocked_ports = {20, 21, 22, 23, 25, 80, 443, 110, 143, 3306, 5432, 6379, 27017}
   \<and> (py_int E port_str = Some port \<and> port \<in> set blocked_ports \<and> 58 \<notin> set port_str \<longrightarrow>
        parse_server_address E (host @ 58 # port_str) =
          (Inl (ValueError (lit ''Port '' @ str_of_int port
                  @ lit '' is not allowed for security reasons'')), []))"
proof -
  have "set blocked_ports = {20, 21, 22, 23, 25, 80, 443, 110, 143, 3306, 5432, 6379, 27017}"
    by (auto simp: blocked_ports_def)
  moreover have "parse_server_address E (host @ 58 # port_str) =
          (Inl (ValueError (lit ''Port '' @ str_of_int port
                  @ lit '' is not allowed for security reasons'')), [])"
    if "py_int E port_str = Some port" "port \<in> set blocked_ports" "58 \<notin> set port_str"
    using that blocked_ports_in_range [OF that(2)]
    by (simp add: parse_server_address_def rsplit1_last validate_server_address_def)
  ultimately show ?thesis by blast
qed

text \<open>An instance of C2: port 443 on a host that does not resolve.\<close>

theorem blocked_port_witness:
  "py_int example_env (lit ''443'') = Some 443 \<and> 443 \<in> set blocked_ports
   \<and> 58 \<notin> set (lit ''443'')
   \<and> parse_server_address example_env (lit ''no such host:443'') =
       (Inl (ValueError (lit ''Port 443 is not allowed for security reasons'')), [])"
proof -
  have h: "py_int example_env (lit ''443'') = Some 443 \<and> 443 \<in> set blocked_ports
      \<and> 58 \<notin> set (lit ''443'')"
    by (simp add: example_env_def ascii_decimal_def lit_def blocked_ports_def)
  have s: "lit ''no such host'' @ 58 # lit ''443'' = lit ''no such host:443''"
    by (simp add: lit_def)
  have m: "lit ''Port '' @ str_of_int 443 @ lit '' is not allowed for security reasons''
      = lit ''Port 443 is not allowed for security reasons''"
    by (simp add: lit_def str_of_int_def)
  from blocked_port_is_rejected [of example_env "lit ''443''" 443 "lit ''no such host''"] h
  show ?thesis unfolding s m by simp
qed

subsection \<open>The offline snapshot\<close>

text \<open>
  C3.  When the address passes validation and the status query raises a connection
  failure or a timeout (an \<open>OSError\<close>, which includes \<open>socket.timeout\<close> and
  \<open>ConnectionRefusedError\<close>), \<open>get_server_info\<close> returns the offline snapshot instead of
  raising, and so does the cached lookup on a cache miss.  The snapshot is offline, has
  the text \<open>Server Offline\<close>, zero players online and at most, the version \<open>Unknown\<close> and
  no icon.
\<close>

theorem offline_snapshot_on_fetch_failure:
  "(fst (parse_server_address E ip) = Inr (host, port)
      \<and> server_status E host port = Inl e
      \<and> is_OSError e \<longrightarrow>
        fst (get_server_info E ip) = Inr (offline_info ip)
        \<and> (fst (cache_get t_get c ip) = None \<longrightarrow>
             fst (get_cached_server_info t_get t_set c ip (get_server_info E))
               = Inr (offline_info ip)))
   \<and> online (offline_info ip) = False
   \<and> motd (offline_info ip) = lit ''Server Offline''
   \<and> players_online (offline_info ip) = 0
   \<and> players_max (offline_info ip) = 0
   \<and> version (offline_info ip) = lit ''Unknown''
   \<and> favicon (offline_info ip) = None"
proof -
  have info: "fst (get_server_info E ip) = Inr (offline_info ip)"
    if "fst (parse_server_address E ip) = Inr (host, port)"
       "server_status E host port = Inl e"
       "is_OSError e"
    using that
    by (cases "parse_server_address E ip")
       (auto simp: get_server_info_def fetch_server_status_def caught_def)
  have cached: "fst (get_cached_server_info t_get t_set c ip (get_server_info E))
               = Inr (offline_info ip)"
    if "fst (get_server_info E ip) = Inr (offline_info ip)" "fst (cache_get t_get c ip) = None"
    using that
    by (cases "get_server_info E ip"; cases "cache_get t_get c ip")
       (simp add: get_cached_server_info_def)
  from info cached show ?thesis by (auto simp: offline_info_def)
qed

text \<open>An instance of C3: the status query of \<open>example.com\<close> is refused.\<close>

theorem offline_snapshot_witness:
  "fst (parse_server_address example_env (lit ''example.com'')) = Inr (lit ''example.com'', 25565)
   \<and> server_status example_env (lit ''example.com'') 25565 = Inl ConnectionRefusedError
   \<and> fst (get_server_info example_env (lit ''example.com''))
       = Inr (offline_info (lit ''example.com''))
   \<and> fst (cache_get 0 (server_cache :: server_info ttl_cache) (lit ''example.com'')) = None
   \<and> fst (get_cached_server_info 0 1 server_cache (lit ''example.com'')
             (get_server_info example_env))
       = Inr (offline_info (lit ''example.com''))"
proof -
  have h1: "fst (parse_server_address example_env (lit ''example.com''))
      = Inr (lit ''example.com'', 25565)"
    by (simp add: server_eval)
  have h2: "server_status example_env (lit ''example.com'') 25565 = Inl ConnectionRefusedError"
    by (simp add: example_env_def)
  have h3: "fst (cache_get 0 (server_cache :: server_info ttl_cache) (lit ''example.com'')) = None"
    by (simp add: cache_get_def ttl_get_def server_cache_def TTLCache_def)
  from offline_snapshot_on_fetch_failure
         [of example_env "lit ''example.com''" "lit ''example.com''" 25565
             ConnectionRefusedError 0 server_cache 1]
       h1 h2 h3
  show ?thesis by simp
qed

subsection \<open>Validation failures\<close>

lemma is_private_ip_trace:
  "set (snd (is_private_ip E h)) \<subseteq> {DnsLookup h}"
  by (auto simp: is_private_ip_def split: sum.splits if_splits)

lemma validate_trace:
  "validate_server_address E h p = (r, tr) \<Longrightarrow> ev \<in> set tr \<Longrightarrow> ev = DnsLookup h"
  using is_private_ip_trace [of E h]
  by (auto simp: validate_server_address_def split: prod.splits sum.splits if_splits)

lemma parse_server_address_trace:
  assumes "ev \<in> set (snd (parse_server_address E ip))"
  shows "\<exists>h. ev = DnsLookup h"
proof (cases "58 \<in> set ip")
  case True
  obtain host port_str where r: "rsplit1 58 ip = (host, port_str)" by fastforce
  with True assms show ?thesis
    by (auto simp: parse_server_address_def dest: validate_trace
          split: option.splits prod.splits sum.splits)
next
  case False
  with assms show ?thesis
    by (auto simp: parse_server_address_def dest: validate_trace
          split: prod.splits sum.splits)
qed

lemma fetch_trace_on_failure:
  "fst (parse_server_address E ip) = Inl e \<Longrightarrow>
   snd (fetch_server_status E ip) = snd (parse_server_address E ip)"
  by (cases "parse_server_address E ip") (auto simp: fetch_server_status_def)

lemma get_server_info_trace:
  "snd (get_server_info E ip) = snd (fetch_server_status E ip)"
  by (cases "fetch_server_status E ip")
     (auto simp: get_server_info_def Let_def split: sum.splits option.splits)

text \<open>
  C1, counterexample.  The claim says that an address that fails validation causes no
  cache get, no fetch and no cache set, and that the failure reaches the caller as an
  error.  For \<open>example.com:22\<close>, whose port is blocked, the lookup looks the raw address up
  in the cache, calls the fetch function, gets the offline snapshot as a result (the
  \<open>ValueError\<close> is caught inside \<open>fetch_server_status\<close>), and stores it in the cache.
\<close>

theorem validation_failure_counterexample:
  "fst (parse_server_address example_env (lit ''example.com:22''))
     = Inl (ValueError (lit ''Port 22 is not allowed for security reasons''))
   \<and> get_cached_server_info 0 0 server_cache (lit ''example.com:22'') (get_server_info example_env)
     = (Inr (offline_info (lit ''example.com:22'')),
        \<lparr>maxsize = 1000, ttl = 30,
         entries = [\<lparr>ckey = lit ''example.com:22'',
                     cvalue = offline_info (lit ''example.com:22''),
                     expires = 30\<rparr>]\<rparr>,
        [CacheGet (lit ''example.com:22''), FetchCall (lit ''example.com:22''),
         CacheSet (lit ''example.com:22'')])"
  by (simp add: server_eval get_cached_server_info_def cache_get_def ttl_get_def
        cache_set_def ttl_setitem_def live_def server_cache_def TTLCache_def)

text \<open>
  C1, amended.  For an address that fails validation, the lookup first performs a cache
  get on the raw address string (validation only runs inside the fetch function, after
  a cache miss), and validation fails before any status query is sent to a game server:
  neither \<open>fetch_server_status\<close> nor the cached lookup sends one.
\<close>

theorem validation_failure_sends_no_query:
  "fst (parse_server_address E ip) = Inl e \<longrightarrow>
     (\<forall>h p. StatusQuery h p \<notin> set (snd (fetch_server_status E ip)))
     \<and> (\<forall>h p. StatusQuery h p \<notin>
           set (snd (snd (get_cached_server_info t_get t_set c ip (get_server_info E)))))
     \<and> hd (snd (snd (get_cached_server_info t_get t_set c ip (get_server_info E))))
         = CacheGet ip"
proof
  assume a: "fst (parse_server_address E ip) = Inl e"
  have t: "\<forall>h p. StatusQuery h p \<notin> set (snd (fetch_server_status E ip))"
    unfolding fetch_trace_on_failure [OF a]
    by (auto dest: parse_server_address_trace)
  then have g: "\<forall>h p. StatusQuery h p \<notin> set (snd (get_server_info E ip))"
    by (simp add: get_server_info_trace)
  have "\<forall>h p. StatusQuery h p \<notin>
           set (snd (snd (get_cached_server_info t_get t_set c ip (get_server_info E))))"
    using g
    by (cases "get_server_info E ip"; cases "cache_get t_get c ip")
       (auto simp: get_cached_server_info_def split: option.splits sum.splits)
  moreover have "hd (snd (snd (get_cached_server_info t_get t_set c ip (get_server_info E))))
         = CacheGet ip"
    by (cases "get_server_info E ip"; cases "cache_get t_get c ip")
       (auto simp: get_cached_server_info_def split: option.splits sum.splits)
  ultimately show "(\<forall>h p. StatusQuery h p \<notin> set (snd (fetch_server_status E ip)))
     \<and> (\<forall>h p. StatusQuery h p \<notin>
           set (snd (snd (get_cached_server_info t_get t_set c ip (get_server_info E)))))
     \<and> hd (snd (snd (get_cached_server_info t_get t_set c ip (get_server_info E))))
         = CacheGet ip"
    using t by blast
qed

text \<open>An instance of the amended C1: the loopback address \<open>127.0.0.1:25565\<close>.\<close>

theorem validation_failure_witness:
  "fst (parse_server_address example_env (lit ''127.0.0.1:25565''))
     = Inl (ValueError (lit ''Access to private/internal IP addresses is not allowed''))
   \<and> snd (snd (get_cached_server_info 0 0 (server_cache :: server_info ttl_cache)
        (lit ''127.0.0.1:25565'') (get_server_info example_env)))
     = [CacheGet (lit ''127.0.0.1:25565''), FetchCall (lit ''127.0.0.1:25565''),
        CacheSet (lit ''127.0.0.1:25565'')]
   \<and> hd (snd (snd (get_cached_server_info 0 0 (server_cache :: server_info ttl_cache)
        (lit ''127.0.0.1:25565'') (get_server_info example_env))))
     = CacheGet (lit ''127.0.0.1:25565'')"
proof -
  have h: "fst (parse_server_address example_env (lit ''127.0.0.1:25565''))
     = Inl (ValueError (lit ''Access to private/internal IP addresses is not allowed''))"
    by (simp add: server_eval)
  have tr: "snd (snd (get_cached_server_info 0 0 (server_cache :: server_info ttl_cache)
        (lit ''127.0.0.1:25565'') (get_server_info example_env)))
     = [CacheGet (lit ''127.0.0.1:25565''), FetchCall (lit ''127.0.0.1:25565''),
        CacheSet (lit ''127.0.0.1:25565'')]"
    by (simp add: server_eval get_cached_server_info_def cache_get_def ttl_get_def
        cache_set_def ttl_setitem_def live_def server_cache_def TTLCache_def)
  from validation_failure_sends_no_query
         [of example_env "lit ''127.0.0.1:25565''" _ 0 0 server_cache] h tr
  show ?thesis by simp
qed

section \<open>Properties of the cache\<close>

lemma length_live: "length (live now es) \<le> length es"
  by (simp add: live_def)

lemma set_live: "set (live now es) \<subseteq> set es"
  by (auto simp: live_def)

lemma find_SomeD: "find P xs = Some x \<Longrightarrow> x \<in> set xs \<and> P x"
  by (auto simp: find_Some_iff)

lemma cache_get_length:
  "length (entries (snd (cache_get now c k))) \<le> length (entries c)"
proof (cases "find (\<lambda>e. ckey e = k) (entries c)")
  case None
  then show ?thesis by (simp add: cache_get_def ttl_get_def)
next
  case (Some e)
  then have "e \<in> set (entries c)" and "ckey e = k" by (auto dest: find_SomeD)
  then have "length (filter (\<lambda>x. ckey x \<noteq> k) (entries c)) < length (entries c)"
    by (intro length_filter_less [of e]) auto
  with Some show ?thesis by (simp add: cache_get_def ttl_get_def)
qed

lemma cache_set_length:
  assumes "length (entries c) \<le> maxsize c" and "0 < maxsize c"
  shows "length (entries (cache_set now c k v)) \<le> maxsize c"
proof (cases "k \<in> set (map ckey (live now (entries c)))")
  case True
  then obtain e where "e \<in> set (live now (entries c))" and "ckey e = k" by auto
  then have "length (filter (\<lambda>x. ckey x \<noteq> k) (live now (entries c))) < length (live now (entries c))"
    by (intro length_filter_less [of e]) auto
  with True assms length_live [of now "entries c"] show ?thesis
    by (simp add: cache_set_def ttl_setitem_def Let_def)
next
  case False
  have "length (filter (\<lambda>x. ckey x \<noteq> k)
          (drop (Suc (length (live now (entries c))) - maxsize c) (live now (entries c))))
        \<le> length (drop (Suc (length (live now (entries c))) - maxsize c) (live now (entries c)))"
    by (rule length_filter_le)
  also have "\<dots> < maxsize c" using assms(2) by simp
  finally show ?thesis using False by (simp add: cache_set_def ttl_setitem_def Let_def)
qed

lemma cache_get_params:
  "maxsize (snd (cache_get now c k)) = maxsize c \<and> ttl (snd (cache_get now c k)) = ttl c"
  by (simp add: cache_get_def ttl_get_def split: option.splits)

lemma cache_set_params:
  "maxsize (cache_set now c k v) = maxsize c \<and> ttl (cache_set now c k v) = ttl c"
  by (simp add: cache_set_def ttl_setitem_def Let_def)

lemma cache_step_inv: "cache_inv c \<Longrightarrow> cache_inv (cache_step c op)"
proof (cases op)
  case (OpGet now k)
  assume "cache_inv c"
  with OpGet cache_get_length [of now c k] cache_get_params [of now c k]
  show ?thesis by (simp add: cache_inv_def)
next
  case (OpSet now k v)
  assume "cache_inv c"
  with OpSet cache_set_length [of c now k v] cache_set_params [of now c k v]
  show ?thesis by (simp add: cache_inv_def)
next
  case OpClear
  assume "cache_inv c"
  with OpClear show ?thesis by (simp add: cache_inv_def cache_clear_def ttl_clear_def)
qed

lemma cache_run_inv: "cache_inv c \<Longrightarrow> cache_inv (foldl cache_step c ops)"
  by (induction ops arbitrary: c) (simp_all add: cache_step_inv)

lemma server_cache_inv: "cache_inv server_cache"
  by (simp add: cache_inv_def server_cache_def TTLCache_def)

lemma cache_step_stored:
  assumes "cache_inv c" and "\<forall>e \<in> set (entries c). stored_by ops e"
    and "e \<in> set (entries (cache_step c op))"
  shows "stored_by (ops @ [op]) e"
proof (cases op)
  case (OpGet now k)
  with assms(3) have "e \<in> set (entries c)"
    by (auto simp: cache_get_def ttl_get_def split: option.splits if_splits dest: find_SomeD)
  with assms(2) show ?thesis by (auto simp: stored_by_def)
next
  case (OpSet now k v)
  with assms(3) have "e \<in> set (entries c) \<or> e = \<lparr>ckey = k, cvalue = v, expires = now + ttl c\<rparr>"
    using set_live [of now "entries c"]
    by (auto simp: cache_set_def ttl_setitem_def Let_def split: if_splits dest: in_set_dropD)
  with assms(1,2) OpSet show ?thesis by (auto simp: stored_by_def cache_inv_def)
next
  case OpClear
  with assms(3) show ?thesis by (simp add: cache_clear_def ttl_clear_def)
qed

lemma cache_run_stored:
  "e \<in> set (entries (foldl cache_step server_cache ops)) \<Longrightarrow> stored_by ops e"
proof (induction ops arbitrary: e rule: rev_induct)
  case Nil
  then show ?case by (simp add: server_cache_def TTLCache_def)
next
  case (snoc op ops)
  have "cache_inv (foldl cache_step server_cache ops)"
    by (rule cache_run_inv [OF server_cache_inv])
  moreover have "\<forall>e \<in> set (entries (foldl cache_step server_cache ops)). stored_by ops e"
    using snoc.IH by blast
  moreover have "e \<in> set (entries (cache_step (foldl cache_step server_cache ops) op))"
    using snoc.prems by simp
  ultimately show ?case by (rule cache_step_stored)
qed

lemma cache_get_SomeD:
  "fst (cache_get now c k) = Some v \<Longrightarrow>
   \<exists>e \<in> set (entries c). ckey e = k \<and> cvalue e = v \<and> now < expires e"
  by (auto simp: cache_get_def ttl_get_def split: option.splits if_splits dest: find_SomeD)

lemma cache_get_after_set:
  "fst (cache_get t' (cache_set t c k v) k) = (if t' < t + ttl c then Some v else None)"
proof -
  have "find (\<lambda>e. ckey e = k)
          (filter (\<lambda>x. ckey x \<noteq> k) es @ [\<lparr>ckey = k, cvalue = v, expires = t + ttl c\<rparr>])
        = Some \<lparr>ckey = k, cvalue = v, expires = t + ttl c\<rparr>" for es :: "'a cache_entry list"
    by (induction es) simp_all
  then show ?thesis
    by (simp add: cache_get_def ttl_get_def cache_set_def ttl_setitem_def Let_def)
qed

lemma cache_set_evicts_lru:
  assumes "k \<notin> set (map ckey (entries c))" and "\<forall>e \<in> set (entries c). now < expires e"
    and "length (entries c) = maxsize c" and "0 < maxsize c"
  shows "entries (cache_set now c k v)
         = tl (entries c) @ [\<lparr>ckey = k, cvalue = v, expires = now + ttl c\<rparr>]"
proof -
  from assms(2) have l: "live now (entries c) = entries c" by (simp add: live_def)
  from assms(3,4) have d: "drop (Suc (length (entries c)) - maxsize c) (entries c) = tl (entries c)"
    by (simp add: drop_Suc)
  have "x \<in> set (entries c)" if "x \<in> set (tl (entries c))" for x
    using that by (cases "entries c") auto
  with assms(1) have "\<forall>x \<in> set (tl (entries c)). ckey x \<noteq> k"
    by auto
  then have f: "filter (\<lambda>x. ckey x \<noteq> k) (tl (entries c)) = tl (entries c)" by simp
  from assms(1) show ?thesis by (simp add: cache_set_def ttl_setitem_def Let_def l d f)
qed

lemma cache_get_moves_to_end:
  "find (\<lambda>e. ckey e = k) (entries c) = Some e \<Longrightarrow> now < expires e \<Longrightarrow>
   cache_get now c k =
     (Some (cvalue e), c\<lparr>entries := filter (\<lambda>x. ckey x \<noteq> k) (entries c) @ [e]\<rparr>)"
  by (simp add: cache_get_def ttl_get_def)

text \<open>
  C4.  In every state the global cache reaches from its initial state, its size is at
  most 1000 (even counting entries that have expired but are still stored).  A value
  that \<open>get\<close> returns was stored by a \<open>set\<close> less than 30 seconds before; in any state,
  the entry \<open>get\<close> returns has not expired.  A \<open>get\<close> after \<open>set(k, v)\<close> returns \<open>v\<close> as
  long as the time-to-live has not elapsed, and nothing afterwards.  A \<open>set\<close> of a new key
  into a full store, none of whose entries has expired, evicts exactly the least
  recently used entry, whatever its expiry time is; and a successful \<open>get\<close> makes its
  entry the most recently used one.
\<close>

theorem cache_invariants:
  "cache_size now (foldl cache_step server_cache ops) \<le> 1000
   \<and> length (entries (foldl cache_step server_cache ops)) \<le> 1000
   \<and> (fst (cache_get now (foldl cache_step server_cache ops) k) = Some v \<longrightarrow>
        (\<exists>t. OpSet t k v \<in> set ops \<and> now - t < 30))
   \<and> (fst (cache_get t1 c k1) = Some v1 \<longrightarrow>
        (\<exists>e \<in> set (entries c). ckey e = k1 \<and> cvalue e = v1 \<and> t1 < expires e))
   \<and> fst (cache_get t (cache_set t (foldl cache_step server_cache ops) k2 v2) k2) = Some v2
   \<and> fst (cache_get t' (cache_set t c k2 v2) k2) = (if t' < t + ttl c then Some v2 else None)
   \<and> (k2 \<notin> set (map ckey (entries c)) \<and> (\<forall>e \<in> set (entries c). t < expires e)
        \<and> length (entries c) = maxsize c \<and> 0 < maxsize c \<longrightarrow>
        entries (cache_set t c k2 v2)
          = tl (entries c) @ [\<lparr>ckey = k2, cvalue = v2, expires = t + ttl c\<rparr>])
   \<and> (find (\<lambda>x. ckey x = k1) (entries c) = Some e1 \<and> t1 < expires e1 \<longrightarrow>
        cache_get t1 c k1 =
          (Some (cvalue e1), c\<lparr>entries := filter (\<lambda>x. ckey x \<noteq> k1) (entries c) @ [e1]\<rparr>))"
proof -
  let ?run = "foldl cache_step server_cache ops"
  have inv: "cache_inv ?run" by (rule cache_run_inv [OF server_cache_inv])
  then have len: "length (entries ?run) \<le> 1000" by (simp add: cache_inv_def)
  with length_live [of now "entries ?run"] have size: "cache_size now ?run \<le> 1000"
    by (simp add: cache_size_def ttl_len_def)
  have age: "\<exists>t. OpSet t k v \<in> set ops \<and> now - t < 30"
    if "fst (cache_get now ?run k) = Some v"
  proof -
    from cache_get_SomeD [OF that] obtain e where
      e: "e \<in> set (entries ?run)" "ckey e = k" "cvalue e = v" "now < expires e" by blast
    from cache_run_stored [OF e(1)] e show ?thesis by (auto simp: stored_by_def)
  qed
  from inv have now_set: "fst (cache_get t (cache_set t ?run k2 v2) k2) = Some v2"
    by (simp add: cache_get_after_set cache_inv_def)
  from size len age now_set show ?thesis
    using cache_get_SomeD [of t1 c k1 v1] cache_get_after_set [of t' t c k2 v2]
      cache_set_evicts_lru [of k2 c t v2] cache_get_moves_to_end [of k1 c e1 t1]
    by blast
qed

text \<open>
  An instance of C4: a run of the global cache, and a full store of capacity 2 in which
  the least recently used entry \<open>b\<close> is the one with more time left.
\<close>

theorem cache_invariants_witness:
  "fst (cache_get 5 (foldl cache_step server_cache
          [OpSet 0 (lit ''a'') (1::nat), OpSet 1 (lit ''b'') 2, OpGet 2 (lit ''a'')]) (lit ''a''))
     = Some 1
   \<and> (\<exists>t. OpSet t (lit ''a'') (1::nat)
            \<in> set [OpSet 0 (lit ''a'') 1, OpSet 1 (lit ''b'') 2, OpGet 2 (lit ''a'')]
          \<and> 5 - t < 30)
   \<and> fst (cache_get 3
        \<lparr>maxsize = 2, ttl = 30,
         entries = [\<lparr>ckey = lit ''b'', cvalue = 2::nat, expires = 31\<rparr>,
                    \<lparr>ckey = lit ''a'', cvalue = 1, expires = 30\<rparr>]\<rparr> (lit ''b'')) = Some 2
   \<and> entries (cache_set 4
        \<lparr>maxsize = 2, ttl = 30,
         entries = [\<lparr>ckey = lit ''b'', cvalue = 2::nat, expires = 31\<rparr>,
                    \<lparr>ckey = lit ''a'', cvalue = 1, expires = 30\<rparr>]\<rparr> (lit ''c'') 3)
     = [\<lparr>ckey = lit ''a'', cvalue = 1, expires = 30\<rparr>,
        \<lparr>ckey = lit ''c'', cvalue = 3, expires = 34\<rparr>]
   \<and> cache_get 3
        \<lparr>maxsize = 2, ttl = 30,
         entries = [\<lparr>ckey = lit ''b'', cvalue = 2::nat, expires = 31\<rparr>,
                    \<lparr>ckey = lit ''a'', cvalue = 1, expires = 30\<rparr>]\<rparr> (lit ''b'')
     = (Some 2,
        \<lparr>maxsize = 2, ttl = 30,
         entries = [\<lparr>ckey = lit ''a'', cvalue = 1, expires = 30\<rparr>,
                    \<lparr>ckey = lit ''b'', cvalue = 2, expires = 31\<rparr>]\<rparr>)"
proof -
  let ?ops = "[OpSet 0 (lit ''a'') (1::nat), OpSet 1 (lit ''b'') 2, OpGet 2 (lit ''a'')]"
  let ?b = "\<lparr>ckey = lit ''b'', cvalue = 2::nat, expires = 31\<rparr>"
  let ?a = "\<lparr>ckey = lit ''a'', cvalue = 1::nat, expires = 30\<rparr>"
  let ?c = "\<lparr>maxsize = 2, ttl = 30, entries = [?b, ?a]\<rparr>"
  have h1: "fst (cache_get 5 (foldl cache_step server_cache ?ops) (lit ''a'')) = Some 1"
    by (simp add: cache_eval)
  have h2: "fst (cache_get 3 ?c (lit ''b'')) = Some 2"
    by (simp add: cache_eval)
  have h3: "lit ''c'' \<notin> set (map ckey (entries ?c)) \<and> (\<forall>e \<in> set (entries ?c). 4 < expires e)
      \<and> length (entries ?c) = maxsize ?c \<and> 0 < maxsize ?c"
    by (simp add: lit_def)
  have h4: "find (\<lambda>x. ckey x = lit ''b'') (entries ?c) = Some ?b \<and> 3 < expires ?b"
    by simp
  have f: "filter (\<lambda>x. ckey x \<noteq> lit ''b'') (entries ?c) = [?a]"
    by (simp add: lit_def)
  from cache_invariants [of 5 ?ops "lit ''a''" 1 3 ?c "lit ''b''" 2 4 "lit ''c''" 3 4 ?b]
       h1 h2 h3 h4
  show ?thesis unfolding f by simp
qed

end
